theory Spec2Isabelle
  imports Main
begin

section \<open>Strings of the prompt editor\<close>

text \<open>
  The editor works on JavaScript strings. They are modelled as \<open>string\<close>, one \<open>char\<close>
  per code unit, restricted to the code units below 256. \<open>isWhiteSpace\<close> holds the code
  units of that range which \<open>String.prototype.trim\<close> strips: TAB, LF, VT, FF, CR, SPACE
  and NBSP.
\<close>

definition isWhiteSpace :: "char \<Rightarrow> bool" where
  "isWhiteSpace c \<longleftrightarrow>
     c = CHR 0x09 \<or> c = CHR 0x0A \<or> c = CHR 0x0B \<or> c = CHR 0x0C \<or> c = CHR 0x0D
     \<or> c = CHR 0x20 \<or> c = CHR 0xA0"

text \<open>\<open>s.trim()\<close>: white space is stripped from both ends.\<close>

definition trim :: "string \<Rightarrow> string" where
  "trim s = rev (dropWhile isWhiteSpace (rev (dropWhile isWhiteSpace s)))"

text \<open>
  \<open>s.split(sep)\<close> for a separator of one code unit: the empty string splits into one
  empty segment, and \<open>n\<close> separators give \<open>n + 1\<close> segments.
\<close>

fun split_str :: "char \<Rightarrow> string \<Rightarrow> string list" where
  "split_str sep [] = [[]]"
| "split_str sep (c # cs) =
     (if c = sep then [] # split_str sep cs
      else (case split_str sep cs of
              [] \<Rightarrow> [[c]]
            | x # xs \<Rightarrow> (c # x) # xs))"

text \<open>\<open>xs.join(sep)\<close>.\<close>

fun join_str :: "string \<Rightarrow> string list \<Rightarrow> string" where
  "join_str sep [] = []"
| "join_str sep [x] = x"
| "join_str sep (x # y # ys) = x @ sep @ join_str sep (y # ys)"

text \<open>
  The clean-up at the end of \<open>handlePromptPartChange\<close>:
  \<^verbatim>\<open>.split(',').map(p => p.trim()).filter(p => p).join(', ')\<close>.
  A string is truthy when it is not empty.
\<close>

definition normalize :: "string \<Rightarrow> string" where
  "normalize s =
     join_str '', '' (filter (\<lambda>p. p \<noteq> []) (map trim (split_str CHR '','' s)))"

text \<open>
  \<open>str.indexOf(searchValue)\<close>: the position of the first occurrence, if there is one.
  \<open>String.prototype.replace\<close> looks its string pattern up this way.
\<close>

fun indexOf :: "string \<Rightarrow> string \<Rightarrow> nat option" where
  "indexOf [] searchValue = (if searchValue = [] then Some 0 else None)"
| "indexOf (c # cs) searchValue =
     (if take (length searchValue) (c # cs) = searchValue then Some 0
      else map_option Suc (indexOf cs searchValue))"

text \<open>
  The replacement text of \<open>String.prototype.replace\<close> is a template: \<open>$$\<close> stands for
  a dollar sign, \<open>$&\<close> for the matched text, \<open>$`\<close> (code unit 0x60) for the text before
  the match and \<open>$'\<close> (code unit 0x27) for the text after it. A string pattern has no
  capture groups, so \<open>$1\<close>, \<open>$<name>\<close> and a dollar sign before anything else stay as
  they are.
\<close>

fun getSubstitution :: "string \<Rightarrow> string \<Rightarrow> nat \<Rightarrow> string \<Rightarrow> string" where
  "getSubstitution matched str position (c # d # r) =
     (if c = CHR ''$'' \<and> d = CHR ''$'' then CHR ''$'' # getSubstitution matched str position r
      else if c = CHR ''$'' \<and> d = CHR ''&'' then matched @ getSubstitution matched str position r
      else if c = CHR ''$'' \<and> d = CHR 0x60
        then take position str @ getSubstitution matched str position r
      else if c = CHR ''$'' \<and> d = CHR 0x27
        then drop (position + length matched) str @ getSubstitution matched str position r
      else c # getSubstitution matched str position (d # r))"
| "getSubstitution matched str position r = r"

text \<open>\<open>str.replace(searchValue, replaceValue)\<close> with two strings: only the first
  occurrence is replaced, and a string without an occurrence is returned as it is.\<close>

definition js_replace :: "string \<Rightarrow> string \<Rightarrow> string \<Rightarrow> string" where
  "js_replace str searchValue replaceValue =
     (case indexOf str searchValue of
        None \<Rightarrow> str
      | Some position \<Rightarrow>
          take position str
          @ getSubstitution searchValue str position replaceValue
          @ drop (position + length searchValue) str)"

text \<open>
  The specification's reading of the same step, for comparison with \<open>js_replace\<close>: the
  first textual occurrence of \<open>oldValue\<close> is replaced by the new value as a literal
  substring, and a text without an occurrence is left alone.
\<close>

fun occurs_in :: "string \<Rightarrow> string \<Rightarrow> bool" where
  "occurs_in oldValue [] = (oldValue = [])"
| "occurs_in oldValue (c # cs) =
     (take (length oldValue) (c # cs) = oldValue \<or> occurs_in oldValue cs)"

fun replace_first_literal :: "string \<Rightarrow> string \<Rightarrow> string \<Rightarrow> string" where
  "replace_first_literal [] oldValue newValue = (if oldValue = [] then newValue else [])"
| "replace_first_literal (c # cs) oldValue newValue =
     (if take (length oldValue) (c # cs) = oldValue
      then newValue @ drop (length oldValue) (c # cs)
      else c # replace_first_literal cs oldValue newValue)"

text \<open>A replacement text in which some dollar sign starts one of the four templates.\<close>

fun hasReplacementPattern :: "string \<Rightarrow> bool" where
  "hasReplacementPattern (c # d # r) =
     ((c = CHR ''$'' \<and> (d = CHR ''$'' \<or> d = CHR ''&'' \<or> d = CHR 0x60 \<or> d = CHR 0x27))
      \<or> hasReplacementPattern (d # r))"
| "hasReplacementPattern r = False"

text \<open>Strings that \<open>trim\<close> leaves alone, and lists of segments as \<open>normalize\<close> joins them.\<close>

definition trimmed :: "string \<Rightarrow> bool" where
  "trimmed x \<longleftrightarrow> x = [] \<or> (\<not> isWhiteSpace (hd x) \<and> \<not> isWhiteSpace (last x))"

definition clean_segments :: "string list \<Rightarrow> bool" where
  "clean_segments xs \<longleftrightarrow> (\<forall>x \<in> set xs. x \<noteq> [] \<and> CHR '','' \<notin> set x \<and> trimmed x)"

section \<open>The structured prompt\<close>

text \<open>
  \<open>interface PromptParts\<close>, declared after the component in
  \<open>src/components/ImageEditor.tsx\<close> (the content of \<open>types.ts\<close>): eight required
  properties of type \<open>string\<close>, in this order. The response schemas of
  \<open>geminiService.ts\<close> list the same eight properties.
\<close>

record PromptParts =
  scene :: string
  background :: string
  imageType :: string
  style :: string
  texture :: string
  lighting :: string
  details :: string
  fullPrompt :: string

text \<open>\<open>keyof PromptParts\<close>, with \<open>prev[field]\<close> and \<open>{ ...prev, [field]: value }\<close>.\<close>

datatype field =
  Scene | Background | ImageType | Style | Texture | Lighting | Details | FullPrompt

fun get_field :: "PromptParts \<Rightarrow> field \<Rightarrow> string" where
  "get_field p Scene = scene p"
| "get_field p Background = background p"
| "get_field p ImageType = imageType p"
| "get_field p Style = style p"
| "get_field p Texture = texture p"
| "get_field p Lighting = lighting p"
| "get_field p Details = details p"
| "get_field p FullPrompt = fullPrompt p"

fun set_field :: "PromptParts \<Rightarrow> field \<Rightarrow> string \<Rightarrow> PromptParts" where
  "set_field p Scene v = p\<lparr>scene := v\<rparr>"
| "set_field p Background v = p\<lparr>background := v\<rparr>"
| "set_field p ImageType v = p\<lparr>imageType := v\<rparr>"
| "set_field p Style v = p\<lparr>style := v\<rparr>"
| "set_field p Texture v = p\<lparr>texture := v\<rparr>"
| "set_field p Lighting v = p\<lparr>lighting := v\<rparr>"
| "set_field p Details v = p\<lparr>details := v\<rparr>"
| "set_field p FullPrompt v = p\<lparr>fullPrompt := v\<rparr>"

text \<open>
  The branch of the state updater in \<open>handlePromptPartChange\<close> for a component part
  (\<open>field !== 'fullPrompt'\<close>): the old value is replaced inside the full prompt when it
  is not blank, else a new value that is not blank is appended, and the full prompt is
  cleaned up in every case.
\<close>

definition edit_part :: "PromptParts \<Rightarrow> field \<Rightarrow> string \<Rightarrow> PromptParts" where
  "edit_part prev field value =
     (let newParts = set_field prev field value;
          oldValue = get_field prev field;
          newFullPrompt =
            (if oldValue \<noteq> [] \<and> trim oldValue \<noteq> []
             then js_replace (fullPrompt prev) oldValue value
             else if value \<noteq> [] \<and> trim value \<noteq> []
             then (if trim (fullPrompt prev) = [] then value
                   else fullPrompt prev @ '', '' @ value)
             else fullPrompt prev)
      in newParts\<lparr>fullPrompt := normalize newFullPrompt\<rparr>)"


section \<open>The AI gateway\<close>

text \<open>
  A call to the external service either fails (the promise is rejected, or the answer
  is not JSON) or yields the parsed object. What the service answers is a parameter of
  the model.
\<close>

datatype gateway_error = GatewayError

text \<open>
  \<open>breakdownPromptIntoParts(prompt)\<close>, with \<open>response\<close> the outcome of the request and of
  \<open>JSON.parse\<close>: the \<open>fullPrompt\<close> of the parsed object is overwritten with the prompt
  that was sent.
\<close>

definition breakdownPromptIntoParts ::
    "string \<Rightarrow> gateway_error + PromptParts \<Rightarrow> gateway_error + PromptParts" where
  "breakdownPromptIntoParts prompt response =
     (case response of
        Inl e \<Rightarrow> Inl e
      | Inr parsed \<Rightarrow> Inr (parsed\<lparr>fullPrompt := prompt\<rparr>))"

section \<open>The prompt generator component\<close>

text \<open>
  The state of \<open>PromptGenerator\<close> that the prompt editor reads and writes: the React
  state variables, the two refs, the pending debounce timeout (the time left in
  milliseconds and the text its callback captured; the effect's clean-up clears the
  previous timeout before a new one is set, so at most one is pending) and, as a log,
  the prompts of the re-analysis requests sent to the gateway so far. The state of the
  image generation and of the copy button is left out.
\<close>

record engine =
  promptParts :: "PromptParts option"
  isLoadingAnalysis :: bool
  isReanalyzing :: bool
  error :: "string option"
  userIsEditingFullPrompt :: bool
  initialAnalysisDone :: bool
  debouncedFullPrompt :: string
  timer :: "(nat \<times> string) option"
  calls :: "string list"

text \<open>\<open>promptParts?.fullPrompt\<close>, the dependency of the debounce effect.\<close>

definition fullPrompt_dep :: "engine \<Rightarrow> string option" where
  "fullPrompt_dep s = map_option fullPrompt (promptParts s)"

text \<open>
  The debounce effect after a render. React runs it only when the dependency differs
  from the one of the previous render: the clean-up clears the previous timeout, and a
  full prompt that is not empty starts a new timeout of 500 ms.
\<close>

definition debounce_effect :: "string option \<Rightarrow> engine \<Rightarrow> engine" where
  "debounce_effect previous_dep s =
     (if fullPrompt_dep s = previous_dep then s
      else (case fullPrompt_dep s of
              None \<Rightarrow> s\<lparr>timer := None\<rparr>
            | Some fp \<Rightarrow> if fp \<noteq> [] then s\<lparr>timer := Some (500, fp)\<rparr> else s\<lparr>timer := None\<rparr>))"

text \<open>\<open>setPromptParts\<close> with the render that follows it.\<close>

definition setPromptParts :: "PromptParts option \<Rightarrow> engine \<Rightarrow> engine" where
  "setPromptParts pp s = debounce_effect (fullPrompt_dep s) (s\<lparr>promptParts := pp\<rparr>)"

text \<open>
  \<open>reAnalyzePrompt(prompt)\<close> up to its \<open>await\<close>: a blank prompt returns at once,
  any other prompt is sent to the gateway.
\<close>

definition reAnalyzePrompt :: "string \<Rightarrow> engine \<Rightarrow> engine" where
  "reAnalyzePrompt prompt s =
     (if trim prompt = [] then s
      else s\<lparr>isReanalyzing := True, error := None, calls := calls s @ [prompt]\<rparr>)"

text \<open>\<open>reAnalyzePrompt\<close> from its \<open>await\<close> on, when the request for \<open>prompt\<close> settles.\<close>

definition reAnalyzePrompt_settled ::
    "string \<Rightarrow> gateway_error + PromptParts \<Rightarrow> engine \<Rightarrow> engine" where
  "reAnalyzePrompt_settled prompt response s =
     (case breakdownPromptIntoParts prompt response of
        Inr result \<Rightarrow> (setPromptParts (Some result) s)\<lparr>isReanalyzing := False\<rparr>
      | Inl e \<Rightarrow> s\<lparr>error := Some ''Failed to re-analyze the prompt. Please try again.'',
                     isReanalyzing := False\<rparr>)"

text \<open>The effect that triggers the re-analysis; it runs when \<open>debouncedFullPrompt\<close> has
  changed.\<close>

definition trigger_effect :: "engine \<Rightarrow> engine" where
  "trigger_effect s =
     (if debouncedFullPrompt s \<noteq> [] \<and> userIsEditingFullPrompt s \<and> initialAnalysisDone s
      then reAnalyzePrompt (debouncedFullPrompt s) (s\<lparr>userIsEditingFullPrompt := False\<rparr>)
      else s)"

text \<open>\<open>setDebouncedFullPrompt\<close> with the render that follows it; setting the state to the
  value it has changes nothing and runs no effect.\<close>

definition setDebouncedFullPrompt :: "string \<Rightarrow> engine \<Rightarrow> engine" where
  "setDebouncedFullPrompt v s =
     (if v = debouncedFullPrompt s then s else trigger_effect (s\<lparr>debouncedFullPrompt := v\<rparr>))"

text \<open>\<open>d\<close> milliseconds pass: a pending timeout with at most \<open>d\<close> milliseconds left fires.\<close>

definition elapse :: "nat \<Rightarrow> engine \<Rightarrow> engine" where
  "elapse d s =
     (case timer s of
        None \<Rightarrow> s
      | Some (remaining, v) \<Rightarrow>
          if d < remaining then s\<lparr>timer := Some (remaining - d, v)\<rparr>
          else setDebouncedFullPrompt v (s\<lparr>timer := None\<rparr>))"

text \<open>\<open>handlePromptPartChange(field, value)\<close>.\<close>

definition handlePromptPartChange :: "field \<Rightarrow> string \<Rightarrow> engine \<Rightarrow> engine" where
  "handlePromptPartChange field value s =
     (case promptParts s of
        None \<Rightarrow> s
      | Some prev \<Rightarrow>
          if field = FullPrompt
          then setPromptParts (Some (prev\<lparr>fullPrompt := value\<rparr>))
                 (s\<lparr>userIsEditingFullPrompt := True\<rparr>)
          else setPromptParts (Some (edit_part prev field value)) s)"

text \<open>\<open>runAnalysis\<close> up to its \<open>await\<close>, and from there on.\<close>

definition runAnalysis :: "engine \<Rightarrow> engine" where
  "runAnalysis s = s\<lparr>isLoadingAnalysis := True, initialAnalysisDone := False, error := None\<rparr>"

definition runAnalysis_settled :: "gateway_error + PromptParts \<Rightarrow> engine \<Rightarrow> engine" where
  "runAnalysis_settled response s =
     (case response of
        Inr result \<Rightarrow>
          (setPromptParts (Some result) s)\<lparr>isLoadingAnalysis := False, initialAnalysisDone := True\<rparr>
      | Inl e \<Rightarrow> s\<lparr>error := Some ''Failed to analyze the image. Please try again.'',
                     isLoadingAnalysis := False, initialAnalysisDone := True\<rparr>)"

text \<open>The component after mounting: the initial values of \<open>useState\<close> and \<open>useRef\<close>,
  and the first \<open>runAnalysis\<close>.\<close>

definition mounted :: engine where
  "mounted = runAnalysis
     \<lparr>promptParts = None, isLoadingAnalysis = True, isReanalyzing = False, error = None,
      userIsEditingFullPrompt = False, initialAnalysisDone = False,
      debouncedFullPrompt = [], timer = None, calls = []\<rparr>"

text \<open>
  What can happen to the mounted component: time passes, the user changes an input,
  the image analysis settles, the re-analysis request for a prompt settles.
\<close>

datatype event =
    Elapse nat
  | Change field string
  | AnalysisSettled "gateway_error + PromptParts"
  | ReanalysisSettled string "gateway_error + PromptParts"

fun step :: "event \<Rightarrow> engine \<Rightarrow> engine" where
  "step (Elapse d) s = elapse d s"
| "step (Change field value) s = handlePromptPartChange field value s"
| "step (AnalysisSettled response) s = runAnalysis_settled response s"
| "step (ReanalysisSettled prompt response) s = reAnalyzePrompt_settled prompt response s"

definition run :: "engine \<Rightarrow> event list \<Rightarrow> engine" where
  "run s es = foldl (\<lambda>s e. step e s) s es"


section \<open>The chat component\<close>

text \<open>
  \<open>interface ChatMessage\<close>, declared after \<open>PromptParts\<close> in
  \<open>src/components/ImageEditor.tsx\<close>: a \<open>role\<close> of type \<open>'user' | 'model'\<close> and a
  string, the property \<open>text\<close>, which is the field \<open>msg_text\<close> here.
\<close>

datatype role = User | Model

record ChatMessage =
  role :: role
  msg_text :: string

datatype Chat = Chat

record chatbot =
  chat :: "Chat option"
  messages :: "ChatMessage list"
  input :: string
  isLoading :: bool

definition greeting :: ChatMessage where
  "greeting = \<lparr>role = Model,
     msg_text = ''Hello! How can I help you with your creative process today?''\<rparr>"

definition fallback :: ChatMessage where
  "fallback = \<lparr>role = Model, msg_text = ''Sorry, I encountered an error. Please try again.''\<rparr>"

text \<open>The component after mounting: the effect creates the session and sets the
  transcript to the greeting.\<close>

definition chat_mounted :: chatbot where
  "chat_mounted = \<lparr>chat = Some Chat, messages = [greeting], input = [], isLoading = False\<rparr>"

definition setInput :: "string \<Rightarrow> chatbot \<Rightarrow> chatbot" where
  "setInput v c = c\<lparr>input := v\<rparr>"

text \<open>\<open>handleSend\<close> up to its \<open>await\<close>; \<open>None\<close> is the early return, with nothing sent.\<close>

definition handleSend :: "chatbot \<Rightarrow> chatbot option" where
  "handleSend c =
     (if trim (input c) = [] \<or> chat c = None \<or> isLoading c then None
      else Some (c\<lparr>messages := messages c @ [\<lparr>role = User, msg_text = input c\<rparr>],
                   input := [], isLoading := True\<rparr>))"

text \<open>\<open>handleSend\<close> from its \<open>await\<close> on, when \<open>chat.sendMessage\<close> settles.\<close>

definition handleSend_settled :: "gateway_error + string \<Rightarrow> chatbot \<Rightarrow> chatbot" where
  "handleSend_settled response c =
     (case response of
        Inr reply \<Rightarrow> c\<lparr>messages := messages c @ [\<lparr>role = Model, msg_text = reply\<rparr>],
                       isLoading := False\<rparr>
      | Inl e \<Rightarrow> c\<lparr>messages := messages c @ [fallback], isLoading := False\<rparr>)"

text \<open>One turn taken to its end: the user types the text \<open>fst sub\<close> and sends it, and the
  gateway settles with \<open>snd sub\<close> before anything else happens.\<close>

definition turn :: "chatbot \<Rightarrow> string \<times> (gateway_error + string) \<Rightarrow> chatbot" where
  "turn c sub =
     (case handleSend (setInput (fst sub) c) of
        None \<Rightarrow> setInput (fst sub) c
      | Some c' \<Rightarrow> handleSend_settled (snd sub) c')"

text \<open>The two messages a turn adds to the transcript.\<close>

definition exchange :: "string \<times> (gateway_error + string) \<Rightarrow> ChatMessage list" where
  "exchange sub =
     [\<lparr>role = User, msg_text = fst sub\<rparr>,
      (case snd sub of Inr reply \<Rightarrow> \<lparr>role = Model, msg_text = reply\<rparr> | Inl e \<Rightarrow> fallback)]"


section \<open>Concrete prompts\<close>

text \<open>The prompt of the specification's first example, a prompt with text in every part,
  and the component once the image analysis has answered with a given prompt.\<close>

definition cat_prompt :: PromptParts where
  "cat_prompt = \<lparr>scene = ''a cat'', background = [], imageType = [], style = [], texture = [],
     lighting = [], details = [], fullPrompt = ''a cat, sitting''\<rparr>"

definition studio_prompt :: PromptParts where
  "studio_prompt = \<lparr>scene = ''a cat'', background = ''a sofa'', imageType = ''photograph'',
     style = ''photorealistic'', texture = ''glossy'', lighting = ''soft light'',
     details = ''whiskers'',
     fullPrompt = ''a cat, a sofa, photograph, photorealistic, glossy, soft light, whiskers''\<rparr>"

definition analysed :: "PromptParts \<Rightarrow> engine" where
  "analysed p = runAnalysis_settled (Inr p) mounted"

section \<open>Invariants of the prompt generator\<close>

text \<open>A pending timeout holds the full prompt of the current render.\<close>

definition timer_current :: "engine \<Rightarrow> bool" where
  "timer_current s =
     (case timer s of None \<Rightarrow> True | Some (remaining, v) \<Rightarrow> fullPrompt_dep s = Some v)"


section \<open>A session with overlapping requests\<close>



section \<open>Splitting, trimming and joining\<close>

lemma split_str_not_Nil: "split_str sep s \<noteq> []"
  by (induction s) (auto split: list.splits)

lemma split_str_no_sep: "x \<in> set (split_str sep s) \<Longrightarrow> sep \<notin> set x"
  by (induction s arbitrary: x) (auto split: list.splits if_splits)

lemma split_str_single: "sep \<notin> set x \<Longrightarrow> split_str sep x = [x]"
  by (induction x) auto

lemma split_str_append: "split_str sep (a @ sep # b) = split_str sep a @ split_str sep b"
  by (induction a) (auto split: list.splits simp: split_str_not_Nil)

lemma set_trim: "set (trim s) \<subseteq> set s"
proof -
  have "set (trim s) \<subseteq> set (rev (dropWhile isWhiteSpace s))"
    unfolding trim_def using set_dropWhileD by fastforce
  also have "\<dots> \<subseteq> set s"
    using set_dropWhileD by fastforce
  finally show ?thesis .
qed

lemma trimmed_trim: "trimmed (trim s)"
proof (cases "trim s = []")
  case True
  then show ?thesis by (simp add: trimmed_def)
next
  case False
  define y where "y = dropWhile isWhiteSpace s"
  define z where "z = dropWhile isWhiteSpace (rev y)"
  have t: "trim s = rev z" by (simp add: trim_def y_def z_def)
  with False have z: "z \<noteq> []" by simp
  then have y: "y \<noteq> []" by (auto simp: z_def)
  have hz: "\<not> isWhiteSpace (hd z)" using z unfolding z_def by (rule hd_dropWhile)
  have hy: "\<not> isWhiteSpace (hd y)" using y unfolding y_def by (rule hd_dropWhile)
  have "hd y \<in> set (rev y)" using y by simp
  then have "last z = last (rev y)" unfolding z_def using hy by (rule dropWhile_last)
  then have lz: "last z = hd y" using y by (simp add: last_rev)
  have "hd (trim s) = last z" using z by (simp add: t hd_rev)
  moreover have "last (trim s) = hd z" using z by (simp add: t last_rev)
  ultimately show ?thesis using hz hy lz by (simp add: trimmed_def)
qed

lemma trim_trimmed: "trimmed x \<Longrightarrow> trim x = x"
proof (cases "x = []")
  case True
  then show ?thesis by (simp add: trim_def)
next
  case False
  assume "trimmed x"
  with False have h: "\<not> isWhiteSpace (hd x)" and l: "\<not> isWhiteSpace (last x)"
    by (simp_all add: trimmed_def)
  have a: "dropWhile isWhiteSpace x = x" using h by (simp add: dropWhile_eq_self_iff)
  have "\<not> isWhiteSpace (hd (rev x))" using l False by (simp add: hd_rev)
  then have "dropWhile isWhiteSpace (rev x) = rev x" by (simp add: dropWhile_eq_self_iff)
  with a show ?thesis by (simp add: trim_def)
qed

lemma trim_ws_Cons: "isWhiteSpace c \<Longrightarrow> trim (c # x) = trim x"
  by (simp add: trim_def)

lemma trim_Nil_iff: "trim s = [] \<longleftrightarrow> (\<forall>c \<in> set s. isWhiteSpace c)"
proof
  assume a: "trim s = []"
  show "\<forall>c \<in> set s. isWhiteSpace c"
  proof (rule ccontr)
    assume "\<not> (\<forall>c \<in> set s. isWhiteSpace c)"
    then have y: "dropWhile isWhiteSpace s \<noteq> []" by (simp add: dropWhile_eq_Nil_conv)
    then have "\<not> isWhiteSpace (hd (dropWhile isWhiteSpace s))" by (rule hd_dropWhile)
    moreover have "hd (dropWhile isWhiteSpace s) \<in> set (rev (dropWhile isWhiteSpace s))"
      using y by simp
    ultimately have "dropWhile isWhiteSpace (rev (dropWhile isWhiteSpace s)) \<noteq> []"
      by (auto simp: dropWhile_eq_Nil_conv)
    with a show False by (simp add: trim_def)
  qed
next
  assume "\<forall>c \<in> set s. isWhiteSpace c"
  then have "dropWhile isWhiteSpace s = []" by simp
  then show "trim s = []" unfolding trim_def by (simp only: rev.simps dropWhile.simps)
qed

lemma comma_not_ws: "\<not> isWhiteSpace CHR '',''"
  by (simp add: isWhiteSpace_def)

lemma space_ws: "isWhiteSpace CHR '' ''"
  by (simp add: isWhiteSpace_def)

lemma split_join_clean:
  "clean_segments (x # xs) \<Longrightarrow>
     split_str CHR '','' (join_str '', '' (x # xs)) = x # map (\<lambda>y. CHR '' '' # y) xs"
proof (induction xs arbitrary: x)
  case Nil
  then show ?case by (simp add: clean_segments_def split_str_single)
next
  case (Cons y ys)
  then have x: "CHR '','' \<notin> set x" and rest: "clean_segments (y # ys)"
    by (simp_all add: clean_segments_def)
  have "split_str CHR '','' (join_str '', '' (x # y # ys))
      = split_str CHR '','' (x @ CHR '','' # (CHR '' '' # join_str '', '' (y # ys)))"
    by simp
  also have "\<dots> = split_str CHR '','' x @ split_str CHR '','' (CHR '' '' # join_str '', '' (y # ys))"
    by (rule split_str_append)
  also have "\<dots> = x # map (\<lambda>y. CHR '' '' # y) (y # ys)"
    using Cons.IH [OF rest] x by (simp add: split_str_single)
  finally show ?case .
qed

lemma normalize_join_clean: "clean_segments xs \<Longrightarrow> normalize (join_str '', '' xs) = join_str '', '' xs"
proof (cases xs)
  case Nil
  then show ?thesis by (simp add: normalize_def trim_def)
next
  case (Cons x ys)
  assume c: "clean_segments xs"
  have m: "map trim (x # map (\<lambda>y. CHR '' '' # y) ys) = x # ys"
    using c Cons by (auto simp: clean_segments_def trim_ws_Cons space_ws trim_trimmed intro: map_idI)
  have f: "filter (\<lambda>p. p \<noteq> []) (x # ys) = x # ys"
    using c Cons by (auto simp: clean_segments_def)
  show ?thesis
    using c unfolding normalize_def Cons by (simp only: split_join_clean m f)
qed

lemma clean_normalize_segments:
  "clean_segments (filter (\<lambda>p. p \<noteq> []) (map trim (split_str CHR '','' s)))"
  using set_trim split_str_no_sep by (fastforce simp: clean_segments_def trimmed_trim)


lemma normalize_blank: "trim s = [] \<Longrightarrow> normalize s = []"
proof -
  assume b: "trim s = []"
  then have "CHR '','' \<notin> set s" using comma_not_ws by (auto simp: trim_Nil_iff)
  then show ?thesis using b by (simp add: normalize_def split_str_single)
qed

lemma normalize_append_blank:
  assumes "trim v = []"
  shows "normalize (fp @ '', '' @ v) = normalize fp"
proof -
  have nc: "CHR '','' \<notin> set (CHR '' '' # v)"
    using assms comma_not_ws by (auto simp: trim_Nil_iff)
  have "split_str CHR '','' (fp @ '', '' @ v) = split_str CHR '','' fp @ [CHR '' '' # v]"
    using split_str_append [of "CHR '',''" fp "CHR '' '' # v"] split_str_single [OF nc] by simp
  moreover have "trim (CHR '' '' # v) = []" using assms by (simp add: trim_ws_Cons space_ws)
  ultimately show ?thesis by (simp add: normalize_def)
qed

section \<open>Replacing the first occurrence\<close>

lemma getSubstitution_plain:
  "\<not> hasReplacementPattern r \<Longrightarrow> getSubstitution matched str position r = r"
  by (induction matched str position r rule: getSubstitution.induct) auto

lemma replace_first_literal_indexOf:
  "replace_first_literal str oldValue newValue =
     (case indexOf str oldValue of
        None \<Rightarrow> str
      | Some k \<Rightarrow> take k str @ newValue @ drop (k + length oldValue) str)"
  by (induction str) (auto split: option.splits)

lemma indexOf_None_iff: "indexOf str oldValue = None \<longleftrightarrow> \<not> occurs_in oldValue str"
  by (induction str) auto

lemma js_replace_literal:
  "\<not> hasReplacementPattern value \<Longrightarrow> js_replace str oldValue value = replace_first_literal str oldValue value"
  by (simp add: js_replace_def replace_first_literal_indexOf getSubstitution_plain split: option.splits)

lemma replace_first_literal_absent:
  "\<not> occurs_in oldValue str \<Longrightarrow> replace_first_literal str oldValue value = str"
  by (simp add: replace_first_literal_indexOf indexOf_None_iff [symmetric])

lemma occurs_in_iff: "occurs_in oldValue str \<longleftrightarrow> (\<exists>pre post. str = pre @ oldValue @ post)"
proof (induction str)
  case Nil
  then show ?case by auto
next
  case (Cons c cs)
  show ?case
  proof
    assume "occurs_in oldValue (c # cs)"
    then consider "take (length oldValue) (c # cs) = oldValue" | "occurs_in oldValue cs" by auto
    then show "\<exists>pre post. c # cs = pre @ oldValue @ post"
    proof cases
      case 1
      then have "c # cs = [] @ oldValue @ drop (length oldValue) (c # cs)"
        by (metis append_Nil append_take_drop_id)
      then show ?thesis by blast
    next
      case 2
      with Cons.IH obtain pre post where "cs = pre @ oldValue @ post" by blast
      then have "c # cs = (c # pre) @ oldValue @ post" by simp
      then show ?thesis by blast
    qed
  next
    assume "\<exists>pre post. c # cs = pre @ oldValue @ post"
    then obtain pre post where e: "c # cs = pre @ oldValue @ post" by blast
    show "occurs_in oldValue (c # cs)"
    proof (cases pre)
      case Nil
      with e have "take (length oldValue) (c # cs) = oldValue" by simp
      then show ?thesis by simp
    next
      case (Cons a pre')
      with e have "cs = pre' @ oldValue @ post" by simp
      with Cons.IH have "occurs_in oldValue cs" by blast
      then show ?thesis by simp
    qed
  qed
qed

section \<open>Editing a component part\<close>

lemma handlePromptPartChange_part:
  "promptParts s = Some p \<Longrightarrow> field \<noteq> FullPrompt \<Longrightarrow>
     promptParts (handlePromptPartChange field value s) = Some (edit_part p field value)"
  by (simp add: handlePromptPartChange_def setPromptParts_def debounce_effect_def
      split: option.splits)

lemma fullPrompt_set_field: "field \<noteq> FullPrompt \<Longrightarrow> fullPrompt (set_field p field v) = fullPrompt p"
  by (cases field) simp_all

lemma get_set_field: "get_field (set_field p field v) g = (if g = field then v else get_field p g)"
  by (cases field; cases g) simp_all

lemma promptParts_analysed: "promptParts (analysed p) = Some p"
  by (simp add: analysed_def runAnalysis_settled_def setPromptParts_def debounce_effect_def
      split: option.splits)

text \<open>
  C5. Normalization is idempotent: splitting a string on commas, trimming each segment,
  dropping the empty segments and joining the rest with a comma and a space gives, applied
  twice, what it gives applied once.
\<close>

theorem normalize_idempotent: "normalize (normalize s) = normalize s"
proof -
  have "normalize s = join_str '', '' (filter (\<lambda>p. p \<noteq> []) (map trim (split_str CHR '','' s)))"
    by (simp add: normalize_def)
  then show ?thesis
    using normalize_join_clean [OF clean_normalize_segments [of s]] by simp
qed

text \<open>
  C1, amended. The prompt is present, a component part is edited and the old value of
  the part is not blank (it does not trim to the empty string). If the new value holds
  none of the replacement templates \<open>$$\<close>, \<open>$&\<close>, \<open>$`\<close>, \<open>$'\<close>, the new full prompt
  is the normalization of the old one with the first occurrence of the old value replaced
  by the new value. If the old value does not occur in the full prompt, the new full
  prompt is the normalization of the old one, whatever the new value is.
\<close>

theorem field_edit_replaces_first_occurrence:
  assumes "promptParts s = Some p" and "field \<noteq> FullPrompt"
    and "trim (get_field p field) \<noteq> []"
  shows "(\<not> hasReplacementPattern value \<longrightarrow>
            map_option fullPrompt (promptParts (handlePromptPartChange field value s))
              = Some (normalize (replace_first_literal (fullPrompt p) (get_field p field) value)))
         \<and> (\<not> occurs_in (get_field p field) (fullPrompt p) \<longrightarrow>
              map_option fullPrompt (promptParts (handlePromptPartChange field value s))
                = Some (normalize (fullPrompt p)))"
proof -
  from assms(3) have ne: "get_field p field \<noteq> []" by (auto simp: trim_def)
  have r: "fullPrompt (edit_part p field value)
          = normalize (js_replace (fullPrompt p) (get_field p field) value)"
    using ne assms(3) by (simp add: edit_part_def Let_def)
  have lit: "fullPrompt (edit_part p field value)
          = normalize (replace_first_literal (fullPrompt p) (get_field p field) value)"
    if "\<not> hasReplacementPattern value"
    using r that by (simp add: js_replace_literal)
  have absent: "fullPrompt (edit_part p field value) = normalize (fullPrompt p)"
    if "\<not> occurs_in (get_field p field) (fullPrompt p)"
    using r that by (simp add: js_replace_def indexOf_None_iff [symmetric])
  show ?thesis
    using handlePromptPartChange_part [OF assms(1,2)] lit absent by simp
qed

text \<open>The specification's example: the scene \<open>a cat\<close> in \<open>a cat, sitting\<close> becomes
  \<open>a dog\<close>. And a scene \<open>a kitten\<close> that the full prompt does not hold: the full prompt
  stays, also for a new value with a template.\<close>

theorem field_edit_replaces_first_occurrence_witness:
  "map_option fullPrompt (promptParts (handlePromptPartChange Scene ''a dog'' (analysed cat_prompt)))
     = Some ''a dog, sitting''
   \<and> map_option fullPrompt (promptParts (handlePromptPartChange Scene ''$& and a dog''
         (analysed (cat_prompt\<lparr>scene := ''a kitten''\<rparr>))))
     = Some ''a cat, sitting''"
proof -
  have e: "normalize (replace_first_literal ''a cat, sitting'' ''a cat'' ''a dog'') = ''a dog, sitting''"
    by code_simp
  have t: "trim ''a cat'' \<noteq> []" by code_simp
  have n: "normalize ''a cat, sitting'' = ''a cat, sitting''" by code_simp
  have k: "trim ''a kitten'' \<noteq> []" by code_simp
  have o: "\<not> occurs_in ''a kitten'' ''a cat, sitting''" by code_simp
  have one: "map_option fullPrompt
      (promptParts (handlePromptPartChange Scene ''a dog'' (analysed cat_prompt)))
     = Some ''a dog, sitting''"
    using field_edit_replaces_first_occurrence
        [OF promptParts_analysed, of Scene cat_prompt "''a dog''"] e t
    by (simp add: cat_prompt_def)
  have two: "map_option fullPrompt (promptParts (handlePromptPartChange Scene ''$& and a dog''
         (analysed (cat_prompt\<lparr>scene := ''a kitten''\<rparr>))))
     = Some ''a cat, sitting''"
    using field_edit_replaces_first_occurrence
        [OF promptParts_analysed, of Scene "cat_prompt\<lparr>scene := ''a kitten''\<rparr>"
          "''$& and a dog''"] n k o
    by (simp add: cat_prompt_def)
  show ?thesis using one two by simp
qed

text \<open>
  C1 as it is written fails twice. An old value of one space is not empty, yet the code
  takes it for absent and appends the new value instead of replacing the first space.
  And a new value holding \<open>$&\<close> is not inserted literally: the template is expanded to
  the matched text.
\<close>

theorem field_edit_replace_counterexample:
  "map_option fullPrompt (promptParts (handlePromptPartChange Scene ''dog''
       (analysed (cat_prompt\<lparr>scene := '' '', fullPrompt := ''a cat''\<rparr>))))
     = Some ''a cat, dog''
   \<and> normalize (replace_first_literal ''a cat'' '' '' ''dog'') = ''adogcat''
   \<and> map_option fullPrompt (promptParts (handlePromptPartChange Scene ''$& and a dog''
       (analysed cat_prompt)))
     = Some ''a cat and a dog, sitting''
   \<and> normalize (replace_first_literal ''a cat, sitting'' ''a cat'' ''$& and a dog'')
     = ''$& and a dog, sitting''"
proof -
  have a: "fullPrompt (edit_part (cat_prompt\<lparr>scene := '' '', fullPrompt := ''a cat''\<rparr>) Scene ''dog'')
             = ''a cat, dog''"
    by code_simp
  have b: "normalize (replace_first_literal ''a cat'' '' '' ''dog'') = ''adogcat''"
    by code_simp
  have c: "fullPrompt (edit_part cat_prompt Scene ''$& and a dog'') = ''a cat and a dog, sitting''"
    by code_simp
  have d: "normalize (replace_first_literal ''a cat, sitting'' ''a cat'' ''$& and a dog'')
             = ''$& and a dog, sitting''"
    by code_simp
  show ?thesis
    using a b c d by (simp add: handlePromptPartChange_part promptParts_analysed)
qed

text \<open>
  C6. When the prompt is present, a component part is edited, its old value is empty
  and the new value is not: the new full prompt is the normalization of the new value if
  the old full prompt is blank, and the normalization of the old full prompt followed by
  a comma, a space and the new value otherwise.
\<close>

theorem field_edit_appends_when_empty:
  assumes "promptParts s = Some p" and "field \<noteq> FullPrompt"
    and "get_field p field = []" and "value \<noteq> []"
  shows "map_option fullPrompt (promptParts (handlePromptPartChange field value s))
           = Some (if trim (fullPrompt p) = [] then normalize value
                   else normalize (fullPrompt p @ '', '' @ value))"
proof (cases "trim value = []")
  case True
  then have "fullPrompt (edit_part p field value) = normalize (fullPrompt p)"
    using assms(3) by (simp add: edit_part_def Let_def)
  then show ?thesis
    using handlePromptPartChange_part [OF assms(1,2)] True
      normalize_append_blank [OF True, of "fullPrompt p"]
    by (simp add: normalize_blank)
next
  case False
  then show ?thesis
    using handlePromptPartChange_part [OF assms(1,2)] assms(3,4)
    by (simp add: edit_part_def Let_def)
qed

text \<open>The specification's example: \<open>glossy\<close> is appended to \<open>a cat\<close>.\<close>

theorem field_edit_appends_when_empty_witness:
  "map_option fullPrompt (promptParts (handlePromptPartChange Texture ''glossy''
       (analysed (cat_prompt\<lparr>fullPrompt := ''a cat''\<rparr>))))
     = Some ''a cat, glossy''"
proof -
  have e: "normalize (''a cat'' @ '', '' @ ''glossy'') = ''a cat, glossy''" by code_simp
  have t: "trim ''a cat'' \<noteq> []" by code_simp
  show ?thesis
    using field_edit_appends_when_empty
        [OF promptParts_analysed, of Texture "cat_prompt\<lparr>fullPrompt := ''a cat''\<rparr>" "''glossy''"] e t
    by (simp add: cat_prompt_def)
qed

text \<open>
  C9. An edit of a component part sets that part to the value supplied and leaves the six
  other component parts as they were; only the edited part and the full prompt can differ.
\<close>

theorem field_edit_frame:
  assumes "promptParts s = Some p" and "field \<noteq> FullPrompt"
  shows "\<exists>p'. promptParts (handlePromptPartChange field value s) = Some p'
           \<and> get_field p' field = value
           \<and> (\<forall>g. g \<noteq> field \<and> g \<noteq> FullPrompt \<longrightarrow> get_field p' g = get_field p g)"
proof -
  have g: "get_field (q\<lparr>fullPrompt := v\<rparr>) g = (if g = FullPrompt then v else get_field q g)" for q v g
    by (cases g) simp_all
  show ?thesis
    using handlePromptPartChange_part [OF assms] assms(2)
    by (simp add: edit_part_def Let_def g get_set_field)
qed

text \<open>A prompt whose eight parts all hold text: the scene is edited, the six other
  component parts stay.\<close>

theorem field_edit_frame_witness:
  "\<exists>p'. promptParts (handlePromptPartChange Scene ''a dog'' (analysed studio_prompt)) = Some p'
      \<and> get_field p' Scene = ''a dog''
      \<and> background p' = ''a sofa'' \<and> imageType p' = ''photograph'' \<and> style p' = ''photorealistic''
      \<and> texture p' = ''glossy'' \<and> lighting p' = ''soft light'' \<and> details p' = ''whiskers''"
proof -
  have d: "Scene \<noteq> FullPrompt" by simp
  obtain p' where p: "promptParts (handlePromptPartChange Scene ''a dog'' (analysed studio_prompt))
        = Some p'"
    and e: "get_field p' Scene = ''a dog''"
    and f: "\<forall>g. g \<noteq> Scene \<and> g \<noteq> FullPrompt \<longrightarrow> get_field p' g = get_field studio_prompt g"
    using field_edit_frame [OF promptParts_analysed d, of "''a dog''" studio_prompt] by blast
  have "background p' = background studio_prompt" "imageType p' = imageType studio_prompt"
    "style p' = style studio_prompt" "texture p' = texture studio_prompt"
    "lighting p' = lighting studio_prompt" "details p' = details studio_prompt"
    using f [rule_format, of Background] f [rule_format, of ImageType] f [rule_format, of Style]
      f [rule_format, of Texture] f [rule_format, of Lighting] f [rule_format, of Details]
    by simp_all
  then show ?thesis using p e by (simp add: studio_prompt_def)
qed

section \<open>Re-analysis\<close>

lemmas engine_defs = run_def mounted_def runAnalysis_def runAnalysis_settled_def
  handlePromptPartChange_def setPromptParts_def debounce_effect_def fullPrompt_dep_def
  elapse_def setDebouncedFullPrompt_def trigger_effect_def reAnalyzePrompt_def
  reAnalyzePrompt_settled_def breakdownPromptIntoParts_def analysed_def cat_prompt_def

lemma calls_setPromptParts [simp]: "calls (setPromptParts pp s) = calls s"
  by (simp add: setPromptParts_def debounce_effect_def split: option.splits)

lemma flag_setPromptParts [simp]:
  "userIsEditingFullPrompt (setPromptParts pp s) = userIsEditingFullPrompt s"
  by (simp add: setPromptParts_def debounce_effect_def split: option.splits)

lemma promptParts_setPromptParts [simp]: "promptParts (setPromptParts pp s) = pp"
  by (simp add: setPromptParts_def debounce_effect_def split: option.splits)

lemma timer_current_setPromptParts: "timer_current s \<Longrightarrow> timer_current (setPromptParts pp s)"
  by (auto simp: timer_current_def setPromptParts_def debounce_effect_def fullPrompt_dep_def
      split: option.splits)

lemma timer_current_step: "timer_current s \<Longrightarrow> timer_current (step e s)"
proof (cases e)
  case (Elapse d)
  assume "timer_current s"
  then show ?thesis
    unfolding Elapse
    by (auto simp: timer_current_def elapse_def setDebouncedFullPrompt_def trigger_effect_def
        reAnalyzePrompt_def fullPrompt_dep_def split: option.splits)
next
  case (Change field v)
  assume "timer_current s"
  then show ?thesis
    unfolding Change
    by (auto simp: handlePromptPartChange_def timer_current_setPromptParts split: option.splits)
       (auto simp: timer_current_def setPromptParts_def debounce_effect_def fullPrompt_dep_def
        split: option.splits)
next
  case (AnalysisSettled response)
  assume a: "timer_current s"
  show ?thesis
  proof (cases response)
    case (Inl e)
    with a show ?thesis
      by (auto simp: AnalysisSettled runAnalysis_settled_def timer_current_def fullPrompt_dep_def
          split: option.splits)
  next
    case (Inr result)
    have "timer_current (setPromptParts (Some result) s)"
      using a by (rule timer_current_setPromptParts)
    then show ?thesis
      by (auto simp: AnalysisSettled Inr runAnalysis_settled_def timer_current_def fullPrompt_dep_def
          split: option.splits)
  qed
next
  case (ReanalysisSettled prompt response)
  assume a: "timer_current s"
  show ?thesis
  proof (cases response)
    case (Inl e)
    with a show ?thesis
      by (auto simp: ReanalysisSettled reAnalyzePrompt_settled_def breakdownPromptIntoParts_def
          timer_current_def fullPrompt_dep_def split: option.splits)
  next
    case (Inr parsed)
    have "timer_current (setPromptParts (Some (parsed\<lparr>fullPrompt := prompt\<rparr>)) s)"
      using a by (rule timer_current_setPromptParts)
    then show ?thesis
      by (auto simp: ReanalysisSettled Inr reAnalyzePrompt_settled_def breakdownPromptIntoParts_def
          timer_current_def fullPrompt_dep_def split: option.splits)
  qed
qed

lemma run_snoc: "run s (es @ [e]) = step e (run s es)"
  by (simp add: run_def)

lemma run_Cons: "run s (e # es) = run (step e s) es"
  by (simp add: run_def)

lemma run_Nil: "run s [] = s"
  by (simp add: run_def)

lemma timer_current_run: "timer_current s \<Longrightarrow> timer_current (run s es)"
  by (induction es rule: rev_induct) (simp_all add: run_Nil run_snoc timer_current_step)

lemma timer_current_mounted: "timer_current mounted"
  by (simp add: timer_current_def mounted_def runAnalysis_def)

lemma calls_elapse_blank:
  "timer s = Some (remaining, v) \<Longrightarrow> trim v = [] \<Longrightarrow> calls (elapse d s) = calls s"
  by (simp add: elapse_def setDebouncedFullPrompt_def trigger_effect_def reAnalyzePrompt_def)

text \<open>
  C10. In every state the mounted component can reach, if the full prompt is empty or
  blank, then no request is sent however much time passes, and \<open>reAnalyzePrompt\<close>
  called with that text returns without sending one.
\<close>

theorem blank_full_prompt_sends_nothing:
  assumes "promptParts (run mounted es) = Some p" and "trim (fullPrompt p) = []"
  shows "calls (elapse d (run mounted es)) = calls (run mounted es)
         \<and> reAnalyzePrompt (fullPrompt p) (run mounted es) = run mounted es"
proof -
  have inv: "timer_current (run mounted es)"
    using timer_current_mounted by (rule timer_current_run)
  have "calls (elapse d (run mounted es)) = calls (run mounted es)"
  proof (cases "timer (run mounted es)")
    case None
    then show ?thesis by (simp add: elapse_def)
  next
    case (Some rv)
    obtain remaining v where rv: "rv = (remaining, v)" by (cases rv)
    with inv Some assms(1) have "v = fullPrompt p"
      by (simp add: timer_current_def fullPrompt_dep_def)
    with assms(2) Some rv show ?thesis by (simp add: calls_elapse_blank)
  qed
  then show ?thesis using assms(2) by (simp add: reAnalyzePrompt_def)
qed

theorem blank_full_prompt_sends_nothing_witness:
  "calls (elapse 500 (run mounted [AnalysisSettled (Inr cat_prompt), Change FullPrompt ''  '']))
     = calls (run mounted [AnalysisSettled (Inr cat_prompt), Change FullPrompt ''  ''])
   \<and> promptParts (run mounted [AnalysisSettled (Inr cat_prompt), Change FullPrompt ''  ''])
     = Some (cat_prompt\<lparr>fullPrompt := ''  ''\<rparr>)"
proof -
  have p: "promptParts (run mounted [AnalysisSettled (Inr cat_prompt), Change FullPrompt ''  ''])
             = Some (cat_prompt\<lparr>fullPrompt := ''  ''\<rparr>)"
    by (simp add: run_def runAnalysis_settled_def handlePromptPartChange_def)
  have t: "trim (fullPrompt (cat_prompt\<lparr>fullPrompt := ''  ''\<rparr>)) = []"
    by (simp add: trim_def isWhiteSpace_def)
  show ?thesis
    using blank_full_prompt_sends_nothing [OF p t, of 500] p by simp
qed

text \<open>
  C2. When the re-analysis of a submitted text succeeds, the prompt becomes the gateway's
  answer with its full prompt replaced by the submitted text: the full prompt is the
  submitted text, whatever full prompt the answer held, and the seven component parts are
  those of the answer.
\<close>

theorem reanalysis_keeps_submitted_text:
  "promptParts (reAnalyzePrompt_settled T (Inr parsed) s) = Some (parsed\<lparr>fullPrompt := T\<rparr>)
   \<and> map_option fullPrompt (promptParts (reAnalyzePrompt_settled T (Inr parsed) s)) = Some T"
  by (simp add: reAnalyzePrompt_settled_def breakdownPromptIntoParts_def)

text \<open>
  C7. When the re-analysis of a submitted text fails, the attempt as a whole only sets the
  error message, clears the flag of the running re-analysis and adds the request to the
  log: the prompt, with its seven component parts and its full prompt, is what it was.
  Whatever happens between the request and its failure, the failure sets the error
  message and leaves the prompt of that moment untouched, so nothing the user has typed
  is rolled back.
\<close>

theorem failed_reanalysis_keeps_prompt:
  assumes "trim T \<noteq> []"
  shows "reAnalyzePrompt_settled T (Inl e) (reAnalyzePrompt T s)
           = s\<lparr>isReanalyzing := False,
                error := Some ''Failed to re-analyze the prompt. Please try again.'',
                calls := calls s @ [T]\<rparr>
         \<and> promptParts (reAnalyzePrompt_settled T (Inl e) (reAnalyzePrompt T s)) = promptParts s
         \<and> promptParts (reAnalyzePrompt_settled T (Inl e) (run (reAnalyzePrompt T s) es))
             = promptParts (run (reAnalyzePrompt T s) es)
         \<and> error (reAnalyzePrompt_settled T (Inl e) (run (reAnalyzePrompt T s) es))
             = Some ''Failed to re-analyze the prompt. Please try again.''"
  using assms
  by (simp add: reAnalyzePrompt_settled_def breakdownPromptIntoParts_def reAnalyzePrompt_def)

text \<open>The analysis answers, the user types \<open>a dog\<close>, the debounce fires and sends the
  request, and the request fails: the error is set and the text typed stays.\<close>

theorem failed_reanalysis_keeps_prompt_witness:
  "promptParts (run mounted [AnalysisSettled (Inr cat_prompt), Change FullPrompt ''a dog'',
       Elapse 500, ReanalysisSettled ''a dog'' (Inl GatewayError)])
     = Some (cat_prompt\<lparr>fullPrompt := ''a dog''\<rparr>)
   \<and> error (run mounted [AnalysisSettled (Inr cat_prompt), Change FullPrompt ''a dog'',
       Elapse 500, ReanalysisSettled ''a dog'' (Inl GatewayError)])
     = Some ''Failed to re-analyze the prompt. Please try again.''
   \<and> calls (run mounted [AnalysisSettled (Inr cat_prompt), Change FullPrompt ''a dog'',
       Elapse 500, ReanalysisSettled ''a dog'' (Inl GatewayError)])
     = [''a dog'']"
proof -
  define s0 where "s0 = (run mounted [AnalysisSettled (Inr cat_prompt), Change FullPrompt ''a dog''])
       \<lparr>timer := None, debouncedFullPrompt := ''a dog'', userIsEditingFullPrompt := False\<rparr>"
  have t: "trim ''a dog'' \<noteq> []" by code_simp
  have fired: "run mounted [AnalysisSettled (Inr cat_prompt), Change FullPrompt ''a dog'', Elapse 500]
      = reAnalyzePrompt ''a dog'' s0"
    using t by (simp add: s0_def engine_defs)
  have pp: "promptParts s0 = Some (cat_prompt\<lparr>fullPrompt := ''a dog''\<rparr>)" and c: "calls s0 = []"
    by (simp_all add: s0_def engine_defs)
  have r: "run mounted [AnalysisSettled (Inr cat_prompt), Change FullPrompt ''a dog'',
       Elapse 500, ReanalysisSettled ''a dog'' (Inl GatewayError)]
      = reAnalyzePrompt_settled ''a dog'' (Inl GatewayError) (reAnalyzePrompt ''a dog'' s0)"
    using fired by (simp add: run_def)
  show ?thesis
    using failed_reanalysis_keeps_prompt [OF t, of GatewayError s0 "[]"] pp c
    unfolding r by (simp add: run_def)
qed








text \<open>
  C3, amended. The prompt is present and the initial analysis has completed. Three edits
  of the full prompt follow, each changing the text and each less than 500 ms after the
  one before, and then 500 ms or more pass with no other event. If the last text is
  blank, no re-analysis request is sent. If the last text is not blank and is not the text
  that was debounced before the edits, exactly one request is sent, with the last text.
\<close>

theorem debounce_coalesces:
  assumes "promptParts s = Some p" and "initialAnalysisDone s"
    and "v1 \<noteq> fullPrompt p" and "v2 \<noteq> v1" and "v3 \<noteq> v2"
    and "d1 < 500" and "d2 < 500" and "500 \<le> d3"
  shows "(trim v3 = [] \<longrightarrow>
            calls (run s [Change FullPrompt v1, Elapse d1, Change FullPrompt v2, Elapse d2,
                          Change FullPrompt v3, Elapse d3])
              = calls s)
         \<and> (trim v3 \<noteq> [] \<and> v3 \<noteq> debouncedFullPrompt s \<longrightarrow>
            calls (run s [Change FullPrompt v1, Elapse d1, Change FullPrompt v2, Elapse d2,
                          Change FullPrompt v3, Elapse d3])
              = calls s @ [v3])"
  using assms by (auto simp: engine_defs trim_def)

theorem debounce_coalesces_witness:
  "calls (run (analysed cat_prompt)
       [Change FullPrompt ''a cat, sitting!'', Elapse 100,
        Change FullPrompt ''a cat, sitting!!'', Elapse 100,
        Change FullPrompt ''a cat, sitting!!!'', Elapse 500])
     = [''a cat, sitting!!!'']
   \<and> calls (run (analysed cat_prompt)
       [Change FullPrompt ''a dog'', Elapse 100, Change FullPrompt ''a'', Elapse 100,
        Change FullPrompt [], Elapse 500])
     = []"
proof -
  have t: "trim ''a cat, sitting!!!'' \<noteq> []" by code_simp
  have b: "trim [] = []" by (simp add: trim_def)
  have a: "initialAnalysisDone (analysed cat_prompt)"
    "debouncedFullPrompt (analysed cat_prompt) = []" "calls (analysed cat_prompt) = []"
    by (simp_all add: engine_defs)
  have one: "calls (run (analysed cat_prompt)
       [Change FullPrompt ''a cat, sitting!'', Elapse 100,
        Change FullPrompt ''a cat, sitting!!'', Elapse 100,
        Change FullPrompt ''a cat, sitting!!!'', Elapse 500])
     = [''a cat, sitting!!!'']"
    using debounce_coalesces [OF promptParts_analysed a(1), of "''a cat, sitting!''"
        "''a cat, sitting!!''" "''a cat, sitting!!!''" 100 100 500] t a(2,3)
    by (simp add: cat_prompt_def)
  have two: "calls (run (analysed cat_prompt)
       [Change FullPrompt ''a dog'', Elapse 100, Change FullPrompt ''a'', Elapse 100,
        Change FullPrompt [], Elapse 500])
     = []"
    using debounce_coalesces [OF promptParts_analysed a(1), of "''a dog''" "''a''" "[]"
        100 100 500] b a(3)
    by (simp add: cat_prompt_def)
  show ?thesis using one two by simp
qed

text \<open>
  C3 as it is written fails: three quick edits that end with the text area emptied send
  no request, and neither do three quick edits that end on the text that was debounced
  before them, since setting \<open>debouncedFullPrompt\<close> to the value it has runs no effect.
\<close>

theorem debounce_coalesces_counterexample:
  "calls (run (analysed cat_prompt)
       [Change FullPrompt ''a dog'', Elapse 100, Change FullPrompt ''a'', Elapse 100,
        Change FullPrompt [], Elapse 500])
     = []
   \<and> calls (run (analysed cat_prompt)
       [Elapse 500,
        Change FullPrompt ''a cat, sitting!'', Elapse 100,
        Change FullPrompt ''a cat, sitting!!'', Elapse 100,
        Change FullPrompt ''a cat, sitting'', Elapse 500])
     = []"
  by (simp add: engine_defs)




section \<open>The chat transcript\<close>

lemma turn_idle:
  assumes "chat c \<noteq> None" and "\<not> isLoading c" and "trim (fst sub) \<noteq> []"
  shows "turn c sub = c\<lparr>messages := messages c @ exchange sub, input := [], isLoading := False\<rparr>"
  using assms
  by (cases "snd sub")
     (auto simp: turn_def handleSend_def setInput_def handleSend_settled_def exchange_def)

lemma turns_idle:
  assumes "chat c \<noteq> None" and "\<not> isLoading c" and "\<forall>sub \<in> set subs. trim (fst sub) \<noteq> []"
  shows "messages (foldl turn c subs) = messages c @ concat (map exchange subs)
         \<and> chat (foldl turn c subs) \<noteq> None \<and> \<not> isLoading (foldl turn c subs)"
  using assms
proof (induction subs arbitrary: c)
  case Nil
  then show ?case by simp
next
  case (Cons sub subs)
  then have t: "turn c sub = c\<lparr>messages := messages c @ exchange sub, input := [], isLoading := False\<rparr>"
    by (simp add: turn_idle)
  have "messages (foldl turn (turn c sub) subs) = messages (turn c sub) @ concat (map exchange subs)
         \<and> chat (foldl turn (turn c sub) subs) \<noteq> None \<and> \<not> isLoading (foldl turn (turn c sub) subs)"
    using Cons.prems by (intro Cons.IH) (simp_all add: t)
  then show ?case by (simp add: t)
qed

lemma length_exchanges: "length (concat (map exchange subs)) = 2 * length subs"
  by (induction subs) (simp_all add: exchange_def)

text \<open>
  C8. After any number \<open>N\<close> of submissions of text that is not blank, each taken to its end
  before the next, the transcript is the greeting followed by, for each submission in
  order, the user's message and then the model's message, which is the gateway's reply or
  the fixed fallback message: \<open>2 * N + 1\<close> messages.
\<close>

theorem chat_transcript:
  assumes "\<forall>sub \<in> set subs. trim (fst sub) \<noteq> []"
  shows "messages (foldl turn chat_mounted subs) = greeting # concat (map exchange subs)
         \<and> length (messages (foldl turn chat_mounted subs)) = 2 * length subs + 1"
proof -
  have "messages (foldl turn chat_mounted subs) = messages chat_mounted @ concat (map exchange subs)"
    using turns_idle [of chat_mounted subs] assms by (simp add: chat_mounted_def)
  then show ?thesis by (simp add: chat_mounted_def length_exchanges)
qed

theorem chat_transcript_witness:
  "messages (foldl turn chat_mounted [(''hi'', Inr ''hello''), (''draw a cat'', Inl GatewayError)])
     = [greeting, \<lparr>role = User, msg_text = ''hi''\<rparr>, \<lparr>role = Model, msg_text = ''hello''\<rparr>,
        \<lparr>role = User, msg_text = ''draw a cat''\<rparr>, fallback]"
proof -
  have t: "\<forall>sub \<in> set [(''hi'', Inr ''hello''), (''draw a cat'', Inl GatewayError)]. trim (fst sub) \<noteq> []"
    by (simp add: trim_def isWhiteSpace_def)
  show ?thesis
    using chat_transcript [OF t] by (simp add: exchange_def)
qed

end
